theory Spec2Isabelle
  imports Main
begin

section \<open>Python strings\<close>

text \<open>
  Python \<open>str\<close> values are modelled as \<open>string\<close>.  The helpers below are the
  string operations the feed code calls: \<open>str.replace\<close> for one character,
  \<open>str.split\<close> on a one-character separator, \<open>str.lower\<close> and the whitespace
  test behind \<open>str.strip\<close>, each restricted to ASCII.
\<close>

definition dquote :: string where
  "dquote = [CHR 0x22]"

definition replace_char :: "char \<Rightarrow> char \<Rightarrow> string \<Rightarrow> string" where
  "replace_char old new s = map (\<lambda>c. if c = old then new else c) s"

fun split_on :: "char \<Rightarrow> string \<Rightarrow> string list" where
  "split_on sep [] = [[]]"
| "split_on sep (c # cs) =
     (if c = sep then [] # split_on sep cs
      else (case split_on sep cs of
              [] \<Rightarrow> [[c]]
            | t # ts \<Rightarrow> (c # t) # ts))"

definition lower_char :: "char \<Rightarrow> char" where
  "lower_char c =
     (let n = (of_char c :: nat)
      in if 65 \<le> n \<and> n \<le> 90 then char_of (n + 32) else c)"

definition lower :: "string \<Rightarrow> string" where
  "lower s = map lower_char s"

definition is_space :: "char \<Rightarrow> bool" where
  "is_space c = (c \<in> {CHR 0x20, CHR 0x09, CHR 0x0A, CHR 0x0B, CHR 0x0C, CHR 0x0D})"

text \<open>
  An f-string interpolation \<open>{x}\<close> of a value that is a \<open>str\<close> or \<open>None\<close>:
  \<open>None\<close> is rendered as the four characters \<open>None\<close>.
\<close>

definition fstring_opt :: "string option \<Rightarrow> string" where
  "fstring_opt v = (case v of None \<Rightarrow> ''None'' | Some t \<Rightarrow> t)"

section \<open>Domain classes (feed/domain.py)\<close>

record Author =
  last_name :: string
  full_name :: string
  initials :: string
  affiliations :: "string list"

text \<open>
  Modelled from the spec: the enumeration \<open>Format\<close> of \<open>feed.consts\<close>, which is not among
  the source files.  The spec lists it as "enumerated {PDF, PS, HTML, OTHER...}"; every
  further member is an \<open>OtherFormat\<close>.  How a member is interpolated into an f-string is
  part of that missing declaration, so \<open>Media.type\<close> takes it as the parameter
  \<open>format_str\<close>.
\<close>

datatype Format = PDF | PS | HTML | OtherFormat string

record Media =
  title :: string
  url :: string
  format :: Format

definition media_type :: "(Format \<Rightarrow> string) \<Rightarrow> Media \<Rightarrow> string" where
  "media_type format_str self =
     (if format self \<in> {PDF, PS} then ''application/'' @ format_str (format self)
      else ''text/html'')"

section \<open>The announce query (feed/database.py)\<close>

text \<open>
  SQL truth values are three-valued: \<open>None\<close> is SQL's UNKNOWN, which a comparison with
  a NULL column yields.  A WHERE clause and a JOIN condition keep a row only when the
  condition is TRUE.
\<close>

type_synonym sql_bool = "bool option"

definition sql_and :: "sql_bool \<Rightarrow> sql_bool \<Rightarrow> sql_bool" where
  "sql_and a b =
     (if a = Some False \<or> b = Some False then Some False
      else if a = Some True \<and> b = Some True then Some True
      else None)"

definition sql_or :: "sql_bool \<Rightarrow> sql_bool \<Rightarrow> sql_bool" where
  "sql_or a b =
     (if a = Some True \<or> b = Some True then Some True
      else if a = Some False \<and> b = Some False then Some False
      else None)"

definition sql_eq :: "'a option \<Rightarrow> 'a option \<Rightarrow> sql_bool" where
  "sql_eq x y =
     (case x of None \<Rightarrow> None
      | Some a \<Rightarrow> (case y of None \<Rightarrow> None | Some b \<Rightarrow> Some (a = b)))"

definition sql_ne :: "'a option \<Rightarrow> 'a option \<Rightarrow> sql_bool" where
  "sql_ne x y =
     (case x of None \<Rightarrow> None
      | Some a \<Rightarrow> (case y of None \<Rightarrow> None | Some b \<Rightarrow> Some (a \<noteq> b)))"

definition sql_le :: "int option \<Rightarrow> int option \<Rightarrow> sql_bool" where
  "sql_le x y =
     (case x of None \<Rightarrow> None
      | Some a \<Rightarrow> (case y of None \<Rightarrow> None | Some b \<Rightarrow> Some (a \<le> b)))"

definition sql_ge :: "int option \<Rightarrow> int option \<Rightarrow> sql_bool" where
  "sql_ge x y =
     (case x of None \<Rightarrow> None
      | Some a \<Rightarrow> (case y of None \<Rightarrow> None | Some b \<Rightarrow> Some (a \<ge> b)))"

definition sql_in :: "'a option \<Rightarrow> 'a list \<Rightarrow> sql_bool" where
  "sql_in x ys = (case x of None \<Rightarrow> None | Some a \<Rightarrow> Some (a \<in> set ys))"

text \<open>
  Modelled from the spec: the mapped tables \<open>ArXivUpdate\<close> and \<open>ArXivMetadata\<close> of
  \<open>feed.tables\<close>, which is not among the source files.  Only the columns the query
  reads are kept; every column may be NULL (\<open>None\<close>).  A date is the number of its
  day, \<open>is_current\<close> is an integer flag.
\<close>

record ArXivUpdate =
  document_id :: "int option"
  version :: "int option"
  date :: "int option"
  action :: "string option"
  archive :: "string option"
  category :: "string option"

record ArXivMetadata =
  metadata_document_id :: "int option"
  is_current :: "int option"

definition result_limit :: nat where
  "result_limit = 15"

definition version_threshold :: int where
  "version_threshold = 4"

text \<open>The ON condition of the join.\<close>

definition join_condition :: "ArXivUpdate \<Rightarrow> ArXivMetadata \<Rightarrow> sql_bool" where
  "join_condition u metadata_alias = sql_eq (document_id u) (metadata_document_id metadata_alias)"

text \<open>The two arguments of \<open>filter\<close>, which SQLAlchemy joins with AND.\<close>

definition filter_condition ::
  "int \<Rightarrow> int \<Rightarrow> string list \<Rightarrow> string list \<Rightarrow> ArXivUpdate \<Rightarrow> ArXivMetadata \<Rightarrow> sql_bool" where
  "filter_condition first_day last_day archives categories u metadata_alias =
     sql_and
       (sql_or
          (sql_in (category u) categories)
          (sql_in (archive u) archives))
       (sql_and
          (sql_or
             (sql_ne (action u) (Some ''replace''))
             (sql_and
                (sql_eq (action u) (Some ''replace''))
                (sql_le (version u) (Some version_threshold))))
          (sql_and (sql_ne (action u) (Some ''abs_only''))
             (sql_and (sql_ge (date u) (Some first_day))
                (sql_and (sql_le (date u) (Some last_day))
                   (sql_eq (is_current metadata_alias) (Some 1))))))"

text \<open>
  The query over the two tables, given as the lists of their rows: the inner join, the
  filter, then LIMIT.  The query has no ORDER BY, so which rows the limit keeps is the
  engine's choice; the model enumerates the join update by update.
\<close>

definition get_announce_papers ::
  "ArXivUpdate list \<Rightarrow> ArXivMetadata list \<Rightarrow> int \<Rightarrow> int \<Rightarrow> string list \<Rightarrow> string list
     \<Rightarrow> (ArXivUpdate \<times> ArXivMetadata) list" where
  "get_announce_papers updates metadata first_day last_day archives categories =
     take result_limit
       (filter
          (\<lambda>(u, m). filter_condition first_day last_day archives categories u m = Some True)
          (filter (\<lambda>(u, m). join_condition u m = Some True)
             (List.product updates metadata)))"

text \<open>Two small tables on which the query is evaluated below.\<close>

definition sample_updates :: "ArXivUpdate list" where
  "sample_updates =
     [\<lparr>document_id = Some 1, version = Some 1, date = Some 10, action = Some ''new'',
        archive = Some ''cs'', category = Some ''cs.CV''\<rparr>,
      \<lparr>document_id = Some 2, version = Some 5, date = Some 10, action = Some ''replace'',
        archive = Some ''cs'', category = Some ''cs.CV''\<rparr>,
      \<lparr>document_id = Some 3, version = Some 1, date = Some 10, action = Some ''abs_only'',
        archive = Some ''cs'', category = Some ''cs.CV''\<rparr>,
      \<lparr>document_id = Some 4, version = Some 2, date = Some 11, action = Some ''replace'',
        archive = Some ''math'', category = Some ''math.NT''\<rparr>,
      \<lparr>document_id = Some 5, version = Some 1, date = Some 12, action = Some ''new'',
        archive = Some ''cs'', category = Some ''cs.CV''\<rparr>,
      \<lparr>document_id = None, version = Some 1, date = Some 10, action = None,
        archive = Some ''cs'', category = Some ''cs.CV''\<rparr>]"

definition sample_metadata :: "ArXivMetadata list" where
  "sample_metadata =
     [\<lparr>metadata_document_id = Some 1, is_current = Some 0\<rparr>,
      \<lparr>metadata_document_id = Some 1, is_current = Some 1\<rparr>,
      \<lparr>metadata_document_id = Some 2, is_current = Some 1\<rparr>,
      \<lparr>metadata_document_id = Some 3, is_current = Some 1\<rparr>,
      \<lparr>metadata_document_id = Some 4, is_current = Some 1\<rparr>,
      \<lparr>metadata_document_id = Some 5, is_current = Some 1\<rparr>]"

section \<open>Element trees (lxml.etree)\<close>

text \<open>
  An lxml element: its tag, its attribute dictionary (in insertion order), its text
  (\<open>None\<close> when it has none) and its children in document order.  The Python code holds
  references into one mutable tree; the model names an element by its position under
  its parent and rebuilds the tree around each mutation.
\<close>

datatype Element =
  Element (tag: string) (attrib: "(string \<times> string) list") (el_text: "string option")
    (children: "Element list")

text \<open>The assignment \<open>element.text = value\<close>.\<close>

definition set_text :: "string option \<Rightarrow> Element \<Rightarrow> Element" where
  "set_text value element = Element (tag element) (attrib element) value (children element)"

text \<open>
  \<open>etree.SubElement(parent, tag, attrib)\<close>: a new element with no text and no children
  is appended to the parent's children, so its position is the number of children the
  parent had before.
\<close>

definition SubElement :: "Element \<Rightarrow> string \<Rightarrow> (string \<times> string) list \<Rightarrow> Element" where
  "SubElement parent tg attrs =
     Element (tag parent) (attrib parent) (el_text parent)
       (children parent @ [Element tg attrs None []])"

text \<open>A mutation \<open>f\<close> of the child at position \<open>i\<close>, seen from the parent.\<close>

definition update_child :: "nat \<Rightarrow> (Element \<Rightarrow> Element) \<Rightarrow> Element \<Rightarrow> Element" where
  "update_child i f parent =
     Element (tag parent) (attrib parent) (el_text parent)
       ((children parent)[i := f (children parent ! i)])"

text \<open>
  A loop \<open>for child in parent\<close> whose body mutates \<open>child\<close> only and neither adds nor
  removes children of \<open>parent\<close>.
\<close>

definition for_each_child :: "(Element \<Rightarrow> Element) \<Rightarrow> Element \<Rightarrow> Element" where
  "for_each_child body parent =
     Element (tag parent) (attrib parent) (el_text parent) (map body (children parent))"

section \<open>Feed extensions (feed/serializers/extensions.py)\<close>

subsection \<open>ArxivExtension and ArxivAtomExtension\<close>

definition ArxivExtension_extend_atom :: "Element \<Rightarrow> Element" where
  "ArxivExtension_extend_atom atom_feed = atom_feed"

definition ArxivExtension_extend_rss :: "Element \<Rightarrow> Element" where
  "ArxivExtension_extend_rss rss_feed = rss_feed"

definition ArxivExtension_extend_ns :: "(string \<times> string) list" where
  "ArxivExtension_extend_ns =
     [(''arxiv'', ''http://arxiv.org/schemas/atom''),
      (''content'', ''http://purl.org/rss/1.0/modules/content/''),
      (''taxo'', ''http://purl.org/rss/1.0/modules/taxonomy/''),
      (''syn'', ''http://purl.org/rss/1.0/modules/syndication/''),
      (''admin'', ''http://webns.net/mvcb/''),
      (''media'', ''http://search.yahoo.com/mrss'')]"

definition ArxivAtomExtension_extend_ns :: "(string \<times> string) list" where
  "ArxivAtomExtension_extend_ns = [(''arxiv'', ''http://arxiv.org/schemas/atom'')]"

subsection \<open>ArxivEntryExtension: state and setters\<close>

text \<open>
  The private fields of one \<open>ArxivEntryExtension\<close>.  \<open>arxiv_primary_category\<close> is
  annotated \<open>Optional[str]\<close> in the source but is handed to lxml as the attribute
  dictionary of the new element, so it is an attribute dictionary here; \<open>arxiv_doi\<close> is
  a dictionary, kept as its items in insertion order.
\<close>

record ArxivEntryExtension =
  arxiv_authors :: "Author list"
  arxiv_media :: "Media list"
  arxiv_comment :: "string option"
  arxiv_primary_category :: "(string \<times> string) list option"
  arxiv_doi :: "(string \<times> string) list option"
  arxiv_affiliation :: "string option"
  arxiv_journal_ref :: "string option"
  arxiv_affiliations :: "string \<rightharpoonup> string list"

definition ArxivEntryExtension_init :: ArxivEntryExtension where
  "ArxivEntryExtension_init =
     \<lparr>arxiv_authors = [], arxiv_media = [], arxiv_comment = None,
      arxiv_primary_category = None, arxiv_doi = None, arxiv_affiliation = None,
      arxiv_journal_ref = None, arxiv_affiliations = Map.empty\<rparr>"

definition author :: "Author \<Rightarrow> ArxivEntryExtension \<Rightarrow> ArxivEntryExtension" where
  "author a self = self\<lparr>arxiv_authors := arxiv_authors self @ [a]\<rparr>"

definition media :: "Media \<Rightarrow> ArxivEntryExtension \<Rightarrow> ArxivEntryExtension" where
  "media m self = self\<lparr>arxiv_media := arxiv_media self @ [m]\<rparr>"

definition comment :: "string \<Rightarrow> ArxivEntryExtension \<Rightarrow> ArxivEntryExtension" where
  "comment txt self = self\<lparr>arxiv_comment := Some txt\<rparr>"

definition primary_category ::
  "(string \<times> string) list \<Rightarrow> ArxivEntryExtension \<Rightarrow> ArxivEntryExtension" where
  "primary_category txt self = self\<lparr>arxiv_primary_category := Some txt\<rparr>"

definition journal_ref :: "string \<Rightarrow> ArxivEntryExtension \<Rightarrow> ArxivEntryExtension" where
  "journal_ref txt self = self\<lparr>arxiv_journal_ref := Some txt\<rparr>"

definition doi :: "(string \<times> string) list \<Rightarrow> ArxivEntryExtension \<Rightarrow> ArxivEntryExtension" where
  "doi doi_list self = self\<lparr>arxiv_doi := Some doi_list\<rparr>"

definition affiliation ::
  "string \<Rightarrow> string list \<Rightarrow> ArxivEntryExtension \<Rightarrow> ArxivEntryExtension" where
  "affiliation name affs self =
     self\<lparr>arxiv_affiliations := (arxiv_affiliations self)(name \<mapsto> affs)\<rparr>"

subsection \<open>Media groups\<close>

text \<open>One round of the loop of \<open>__add_media\<close>.\<close>

definition add_media_item :: "(Format \<Rightarrow> string) \<Rightarrow> Media \<Rightarrow> Element \<Rightarrow> Element" where
  "add_media_item format_str m entry =
     (let group_ix = length (children entry);
          entry = SubElement entry ''{http://search.yahoo.com/mrss}group'' [];
          title_ix = length (children (children entry ! group_ix));
          entry = update_child group_ix
                    (\<lambda>group. SubElement group ''{http://search.yahoo.com/mrss}title'' []) entry;
          entry = update_child group_ix (update_child title_ix (set_text (Some (title m)))) entry;
          entry = update_child group_ix
                    (\<lambda>group. SubElement group ''{http://search.yahoo.com/mrss}content''
                       [(''url'', url m), (''type'', media_type format_str m)]) entry
      in entry)"

definition add_media ::
  "(Format \<Rightarrow> string) \<Rightarrow> ArxivEntryExtension \<Rightarrow> Element \<Rightarrow> Element" where
  "add_media format_str self entry = fold (add_media_item format_str) (arxiv_media self) entry"

subsection \<open>extend_atom\<close>

text \<open>\<open>SubElement\<close> followed by the assignment of the new element's text.\<close>

definition SubElement_with_text :: "string \<Rightarrow> string \<Rightarrow> Element \<Rightarrow> Element" where
  "SubElement_with_text tg txt parent =
     (let ix = length (children parent);
          parent = SubElement parent tg [];
          parent = update_child ix (set_text (Some txt)) parent
      in parent)"

text \<open>
  \<open>self.__arxiv_affiliations.get(name, [])\<close>, where \<open>name\<close> is the text of an element
  and may be \<open>None\<close>.
\<close>

definition affiliations_get :: "(string \<rightharpoonup> string list) \<Rightarrow> string option \<Rightarrow> string list" where
  "affiliations_get d name =
     (case name of
        None \<Rightarrow> []
      | Some n \<Rightarrow> (case d n of None \<Rightarrow> [] | Some affs \<Rightarrow> affs))"

definition add_affiliations :: "string list \<Rightarrow> Element \<Rightarrow> Element" where
  "add_affiliations affs author_el =
     fold (SubElement_with_text ''{http://arxiv.org/schemas/atom}affiliation'') affs author_el"

lemma children_SubElement_with_text:
  "children (SubElement_with_text tg txt parent) =
     children parent @ [Element tg [] (Some txt) []]"
  by (simp add: SubElement_with_text_def SubElement_def update_child_def set_text_def Let_def)

lemma children_add_affiliations:
  "children (add_affiliations affs author_el) =
     children author_el @
       map (\<lambda>a. Element ''{http://arxiv.org/schemas/atom}affiliation'' [] (Some a) []) affs"
  unfolding add_affiliations_def
  by (induction affs arbitrary: author_el) (simp_all add: children_SubElement_with_text)

text \<open>
  The loop \<open>for author_child in author\<close>.  Its body appends to the very element it
  iterates over, so the iteration is over the live list of children: position \<open>j\<close> is
  looked up in the element as it is when the loop reaches it.
\<close>

function scan_author :: "(string \<rightharpoonup> string list) \<Rightarrow> nat \<Rightarrow> Element \<Rightarrow> Element" where
  "scan_author d j author_el =
     (if j < length (children author_el) then
        (let author_child = children author_el ! j in
           if tag author_child = ''name'' then
             scan_author d (Suc j)
               (add_affiliations (affiliations_get d (el_text author_child)) author_el)
           else scan_author d (Suc j) author_el)
      else author_el)"
  by pat_completeness auto
termination
proof (relation "measures
    [\<lambda>(d, j, e). length (filter (\<lambda>c. tag c = ''name'') (drop j (children e))),
     \<lambda>(d, j, e). length (children e) - j]")
  show "wf (measures
    [\<lambda>(d, j, e). length (filter (\<lambda>c. tag c = ''name'') (drop j (children e))),
     \<lambda>(d :: string \<rightharpoonup> string list, j, e). length (children e) - j])"
    by simp
next
  fix d :: "string \<rightharpoonup> string list" and j author_el x
  assume j: "j < length (children author_el)"
    and x: "x = children author_el ! j" and nm: "tag x = ''name''"
  have "drop j (children author_el) = x # drop (Suc j) (children author_el)"
    using j x by (simp add: Cons_nth_drop_Suc)
  then have "length (filter (\<lambda>c. tag c = ''name'') (drop j (children author_el))) =
      Suc (length (filter (\<lambda>c. tag c = ''name'') (drop (Suc j) (children author_el))))"
    using nm by simp
  moreover have "filter (\<lambda>c. tag c = ''name'')
      (drop (Suc j) (children (add_affiliations (affiliations_get d (el_text x)) author_el))) =
      filter (\<lambda>c. tag c = ''name'') (drop (Suc j) (children author_el))"
    using j by (simp add: children_add_affiliations filter_empty_conv)
  ultimately show "((d, Suc j, add_affiliations (affiliations_get d (el_text x)) author_el),
      (d, j, author_el)) \<in> measures
    [\<lambda>(d, j, e). length (filter (\<lambda>c. tag c = ''name'') (drop j (children e))),
     \<lambda>(d, j, e). length (children e) - j]"
    by simp
next
  fix d :: "string \<rightharpoonup> string list" and j author_el x
  assume j: "j < length (children author_el)"
    and x: "x = children author_el ! j" and nm: "tag x \<noteq> ''name''"
  have "drop j (children author_el) = x # drop (Suc j) (children author_el)"
    using j x by (simp add: Cons_nth_drop_Suc)
  then have "length (filter (\<lambda>c. tag c = ''name'') (drop j (children author_el))) =
      length (filter (\<lambda>c. tag c = ''name'') (drop (Suc j) (children author_el)))"
    using nm by simp
  then show "((d, Suc j, author_el), (d, j, author_el)) \<in> measures
    [\<lambda>(d, j, e). length (filter (\<lambda>c. tag c = ''name'') (drop j (children e))),
     \<lambda>(d, j, e). length (children e) - j]"
    using j by simp
qed

declare scan_author.simps [simp del]


definition extend_atom ::
  "(Format \<Rightarrow> string) \<Rightarrow> ArxivEntryExtension \<Rightarrow> Element \<Rightarrow> Element" where
  "extend_atom format_str self entry =
     (let entry =
            (case arxiv_comment self of
               None \<Rightarrow> entry
             | Some c \<Rightarrow>
                 if c \<noteq> [] then
                   SubElement_with_text ''{http://arxiv.org/schemas/atom}comment'' c entry
                 else entry);
          entry =
            (case arxiv_primary_category self of
               None \<Rightarrow> entry
             | Some pc \<Rightarrow>
                 if pc \<noteq> [] then
                   SubElement entry ''{http://arxiv.org/schemas/atom}primary_category'' pc
                 else entry);
          entry =
            (case arxiv_journal_ref self of
               None \<Rightarrow> entry
             | Some r \<Rightarrow>
                 if r \<noteq> [] then
                   SubElement_with_text ''{http://arxiv.org/schemas/atom}journal_ref'' r entry
                 else entry);
          entry =
            (case arxiv_doi self of
               None \<Rightarrow> entry
             | Some doi_list \<Rightarrow>
                 if doi_list \<noteq> [] then
                   fold (SubElement_with_text ''{http://arxiv.org/schemas/atom}doi'')
                     (map fst doi_list) entry
                 else entry);
          entry =
            for_each_child
              (\<lambda>entry_child.
                 if tag entry_child = ''author''
                 then scan_author (arxiv_affiliations self) 0 entry_child
                 else entry_child)
              entry;
          entry = add_media format_str self entry
      in entry)"

subsection \<open>extend_rss\<close>

text \<open>The anchor the loop body adds to the description for one author.\<close>

definition author_anchor :: "string \<Rightarrow> Author \<Rightarrow> string" where
  "author_anchor base_server a =
     (let name = last_name a @ '','' @ ''+'' @ replace_char CHR '' '' CHR ''+'' (initials a)
      in ''<a href='' @ dquote @ ''http://'' @ base_server @ ''/search/?query='' @ name @ ''&''
           @ ''searchtype=author'' @ dquote @ ''>'' @ full_name a @ ''</a>'')"

text \<open>
  The loop \<open>for author in self.__arxiv_authors\<close>, with its two variables \<open>first\<close> and
  \<open>description\<close>.
\<close>

fun authors_loop :: "string \<Rightarrow> Author list \<Rightarrow> bool \<Rightarrow> string \<Rightarrow> string" where
  "authors_loop base_server [] first description = description"
| "authors_loop base_server (a # rest) first description =
     (let description = (if first then description else description @ '', '');
          description = description @ author_anchor base_server a
      in authors_loop base_server rest False description)"

definition rss_description :: "string \<Rightarrow> ArxivEntryExtension \<Rightarrow> string option \<Rightarrow> string" where
  "rss_description base_server self entry_child_text =
     authors_loop base_server (arxiv_authors self) True ''<p>Authors: ''
       @ ''</p><p>'' @ fstring_opt entry_child_text @ ''</p>''"

text \<open>
  \<open>base_server\<close> is the configured value \<open>current_app.config["BASE_SERVER"]\<close>.
\<close>

definition extend_rss ::
  "(Format \<Rightarrow> string) \<Rightarrow> string \<Rightarrow> ArxivEntryExtension \<Rightarrow> Element \<Rightarrow> Element" where
  "extend_rss format_str base_server self entry =
     (let entry =
            for_each_child
              (\<lambda>entry_child.
                 if tag entry_child = ''description''
                 then set_text (Some (rss_description base_server self (el_text entry_child)))
                        entry_child
                 else entry_child)
              entry;
          entry = add_media format_str self entry
      in entry)"

subsection \<open>What the renderers are specified to produce\<close>

text \<open>Python's \<open>sep.join(parts)\<close>.\<close>

fun join_with :: "string \<Rightarrow> string list \<Rightarrow> string" where
  "join_with sep [] = []"
| "join_with sep [x] = x"
| "join_with sep (x # y # ys) = x @ sep @ join_with sep (y # ys)"

text \<open>
  The description the spec asks of \<open>renderRss\<close>: the authors paragraph, one anchor per
  author, comma-separated, then the original description in a paragraph of its own.
\<close>

definition spec_rss_description :: "string \<Rightarrow> Author list \<Rightarrow> string \<Rightarrow> string" where
  "spec_rss_description base_server authors original =
     ''<p>Authors: '' @ join_with '', '' (map (author_anchor base_server) authors)
       @ ''</p><p>'' @ original @ ''</p>''"

text \<open>
  A media group as the spec describes it: a title element with the medium's title as
  text, and a content element with the attributes \<open>url\<close> and \<open>type\<close>.
\<close>

definition spec_media_group :: "(Format \<Rightarrow> string) \<Rightarrow> Media \<Rightarrow> Element" where
  "spec_media_group format_str m =
     Element ''{http://search.yahoo.com/mrss}group'' [] None
       [Element ''{http://search.yahoo.com/mrss}title'' [] (Some (title m)) [],
        Element ''{http://search.yahoo.com/mrss}content''
          [(''url'', url m), (''type'', media_type format_str m)] None []]"

text \<open>The elements the spec asks \<open>renderAtom\<close> to append for each field.\<close>

definition spec_comment_elements :: "ArxivEntryExtension \<Rightarrow> Element list" where
  "spec_comment_elements self =
     (case arxiv_comment self of
        None \<Rightarrow> []
      | Some c \<Rightarrow>
          if c = [] then []
          else [Element ''{http://arxiv.org/schemas/atom}comment'' [] (Some c) []])"

definition spec_primary_category_elements :: "ArxivEntryExtension \<Rightarrow> Element list" where
  "spec_primary_category_elements self =
     (case arxiv_primary_category self of
        None \<Rightarrow> []
      | Some pc \<Rightarrow>
          if pc = [] then []
          else [Element ''{http://arxiv.org/schemas/atom}primary_category'' pc None []])"

definition spec_journal_ref_elements :: "ArxivEntryExtension \<Rightarrow> Element list" where
  "spec_journal_ref_elements self =
     (case arxiv_journal_ref self of
        None \<Rightarrow> []
      | Some r \<Rightarrow>
          if r = [] then []
          else [Element ''{http://arxiv.org/schemas/atom}journal_ref'' [] (Some r) []])"

definition spec_doi_elements :: "ArxivEntryExtension \<Rightarrow> Element list" where
  "spec_doi_elements self =
     (case arxiv_doi self of
        None \<Rightarrow> []
      | Some doi_list \<Rightarrow>
          map (\<lambda>(label, v). Element ''{http://arxiv.org/schemas/atom}doi'' [] (Some label) [])
            doi_list)"

definition spec_affiliation_elements :: "(string \<rightharpoonup> string list) \<Rightarrow> Element \<Rightarrow> Element list" where
  "spec_affiliation_elements d author_child =
     (if tag author_child = ''name''
      then map (\<lambda>a. Element ''{http://arxiv.org/schemas/atom}affiliation'' [] (Some a) [])
             (affiliations_get d (el_text author_child))
      else [])"

definition spec_author :: "(string \<rightharpoonup> string list) \<Rightarrow> Element \<Rightarrow> Element" where
  "spec_author d entry_child =
     (if tag entry_child = ''author''
      then Element (tag entry_child) (attrib entry_child) (el_text entry_child)
             (children entry_child
                @ concat (map (spec_affiliation_elements d) (children entry_child)))
      else entry_child)"

text \<open>A state, an Atom entry and an RSS entry on which the renderers are evaluated below.\<close>

definition sample_format_str :: "Format \<Rightarrow> string" where
  "sample_format_str f =
     (case f of PDF \<Rightarrow> ''pdf'' | PS \<Rightarrow> ''ps'' | HTML \<Rightarrow> ''html'' | OtherFormat x \<Rightarrow> x)"

definition sample_extension :: ArxivEntryExtension where
  "sample_extension =
     affiliation ''Ann Lee'' [''MIT'', ''CERN'']
       (media \<lparr>title = ''pdf'', url = ''http://arxiv.org/pdf/1'', format = PDF\<rparr>
          (doi [(''doi'', ''10.1/x'')]
             (primary_category [(''term'', ''cs.AI'')]
                (comment ''5 pages''
                   (author \<lparr>last_name = ''Roe'', full_name = ''Bo Roe'', initials = ''B'',
                             affiliations = []\<rparr>
                      (author \<lparr>last_name = ''Lee'', full_name = ''Ann Lee'', initials = ''A B'',
                                affiliations = [''MIT'', ''CERN'']\<rparr>
                         ArxivEntryExtension_init))))))"

definition sample_atom_entry :: Element where
  "sample_atom_entry =
     Element ''entry'' [] None
       [Element ''title'' [] (Some ''T'') [],
        Element ''author'' [] None [Element ''name'' [] (Some ''Ann Lee'') []],
        Element ''author'' [] None [Element ''name'' [] (Some ''Bo Roe'') []]]"

definition sample_rss_entry :: Element where
  "sample_rss_entry =
     Element ''item'' [] None
       [Element ''title'' [] (Some ''T'') [],
        Element ''description'' [] (Some ''Abstract.'') []]"

text \<open>An RSS entry whose description element has no text.\<close>

definition sample_rss_entry_no_text :: Element where
  "sample_rss_entry_no_text = Element ''item'' [] None [Element ''description'' [] None []]"

section \<open>Specifier validation (feed/fetch_data.py)\<close>

text \<open>
  Modelled from the spec: \<open>validate_request\<close> of \<open>feed.fetch_data\<close>, its error class
  \<open>FeedIndexerError\<close> and the taxonomy tables it consults; none of them is among the
  source files, only the tests of \<open>validate_request\<close> are.  The definitions follow
  section 4.1 of the spec.  The taxonomy is "a mapping from archive to set of valid
  subject-class codes", here a list of archives, each with its subject classes, in
  canonical casing.
\<close>

datatype FeedIndexerError = FeedIndexerError (message: string)

type_synonym taxonomy = "(string \<times> string list) list"

definition squote :: string where
  "squote = [CHR 0x27]"

definition invalid_archive_specification :: FeedIndexerError where
  "invalid_archive_specification = FeedIndexerError ''Invalid archive specification''"

definition bad_structure :: FeedIndexerError where
  "bad_structure = FeedIndexerError ''Bad archive/subject class structure''"

definition bad_archive :: "string \<Rightarrow> FeedIndexerError" where
  "bad_archive a = FeedIndexerError (''Bad archive '' @ squote @ a @ squote @ ''.'')"

definition bad_subject_class :: "string \<Rightarrow> FeedIndexerError" where
  "bad_subject_class s = FeedIndexerError (''Bad subject class '' @ squote @ s @ squote @ ''.'')"

text \<open>
  Modelled from the spec: "Matching against archive/category names is case-insensitive;
  canonical casing is taken from the known-taxonomy lookup table".
\<close>

definition find_archive :: "taxonomy \<Rightarrow> string \<Rightarrow> (string \<times> string list) option" where
  "find_archive tax a = find (\<lambda>(name, subjects). lower name = lower a) tax"

definition find_subject :: "string list \<Rightarrow> string \<Rightarrow> string option" where
  "find_subject subjects s = find (\<lambda>c. lower c = lower s) subjects"

definition known_subject_class :: "taxonomy \<Rightarrow> string \<Rightarrow> bool" where
  "known_subject_class tax s =
     list_ex (\<lambda>(name, subjects). find_subject subjects s \<noteq> None) tax"

text \<open>What a valid token contributes: an archive, or a dotted category.\<close>

datatype token = ArchiveToken string | CategoryToken string

text \<open>
  Modelled from the spec: rules 2 to 5 of section 4.1 for one token.  More than two
  parts, or a blank part, is a structure error, but a blank archive before a subject
  that is not blank is reported as \<open>Bad archive ''.\<close>; then the archive must be known;
  then the subject class must be known under some archive and under this one (both
  failures give the same message).
\<close>

definition validate_token :: "taxonomy \<Rightarrow> string \<Rightarrow> FeedIndexerError + token" where
  "validate_token tax tok =
     (let parts = split_on CHR ''.'' tok in
        if length parts > 2 then Inl bad_structure
        else
          (case parts of
             [a] \<Rightarrow>
               (case find_archive tax a of
                  None \<Rightarrow> Inl (bad_archive a)
                | Some (name, subjects) \<Rightarrow> Inr (ArchiveToken name))
           | [a, s] \<Rightarrow>
               if a = [] \<and> s \<noteq> [] then Inl (bad_archive a)
               else if a = [] \<or> s = [] then Inl bad_structure
               else
                 (case find_archive tax a of
                    None \<Rightarrow> Inl (bad_archive a)
                  | Some (name, subjects) \<Rightarrow>
                      if \<not> known_subject_class tax s then Inl (bad_subject_class s)
                      else
                        (case find_subject subjects s of
                           None \<Rightarrow> Inl (bad_subject_class s)
                         | Some c \<Rightarrow> Inr (CategoryToken (name @ ''.'' @ c))))
           | _ \<Rightarrow> Inl bad_structure))"

text \<open>
  Modelled from the spec: the tokens are validated in input order and the first error
  is the result; an archive is appended to \<open>archives\<close>, a category to \<open>categories\<close>.
\<close>

fun validate_tokens ::
  "taxonomy \<Rightarrow> string list \<Rightarrow> string list \<Rightarrow> string list
     \<Rightarrow> FeedIndexerError + (string list \<times> string list)" where
  "validate_tokens tax [] archives categories = Inr (archives, categories)"
| "validate_tokens tax (tok # rest) archives categories =
     (case validate_token tax tok of
        Inl e \<Rightarrow> Inl e
      | Inr (ArchiveToken a) \<Rightarrow> validate_tokens tax rest (archives @ [a]) categories
      | Inr (CategoryToken c) \<Rightarrow> validate_tokens tax rest archives (categories @ [c]))"

text \<open>
  Modelled from the spec: rule 1, "Empty or whitespace-only overall specifier" gives
  "Invalid archive specification", "also triggered by a trailing + producing an empty
  token"; the specifier is \<open>token ('+' token)*\<close>.
\<close>

definition validate ::
  "taxonomy \<Rightarrow> string \<Rightarrow> FeedIndexerError + (string list \<times> string list)" where
  "validate tax spec =
     (let tokens = split_on CHR ''+'' spec in
        if list_all is_space spec \<or> last tokens = [] then Inl invalid_archive_specification
        else validate_tokens tax tokens [] [])"

text \<open>The archive names and the dotted category names of a taxonomy.\<close>

definition archive_names :: "taxonomy \<Rightarrow> string list" where
  "archive_names tax = map fst tax"

definition category_names :: "taxonomy \<Rightarrow> string list" where
  "category_names tax =
     concat (map (\<lambda>(name, subjects). map (\<lambda>c. name @ ''.'' @ c) subjects) tax)"

text \<open>
  Modelled from the spec: the part of the taxonomy that the examples of section 8 use.
\<close>

definition sample_taxonomy :: taxonomy where
  "sample_taxonomy =
     [(''cs'', [''AI'', ''CG'', ''CV'']),
      (''math'', [''NT'']),
      (''hep-lat'', []),
      (''physics'', [''acc-ph'', ''optics''])]"

section \<open>Properties of the announce query\<close>

lemma sql_and_True: "sql_and a b = Some True \<longleftrightarrow> a = Some True \<and> b = Some True"
  by (auto simp: sql_and_def)

lemma sql_or_True: "sql_or a b = Some True \<longleftrightarrow> a = Some True \<or> b = Some True"
  by (auto simp: sql_or_def)

lemma sql_eq_True: "sql_eq x y = Some True \<longleftrightarrow> (\<exists>a. x = Some a \<and> y = Some a)"
  by (auto simp: sql_eq_def split: option.splits)

lemma sql_ne_True: "sql_ne x y = Some True \<longleftrightarrow> (\<exists>a b. x = Some a \<and> y = Some b \<and> a \<noteq> b)"
  by (auto simp: sql_ne_def split: option.splits)

lemma sql_le_True: "sql_le x y = Some True \<longleftrightarrow> (\<exists>a b. x = Some a \<and> y = Some b \<and> a \<le> b)"
  by (auto simp: sql_le_def split: option.splits)

lemma sql_ge_True: "sql_ge x y = Some True \<longleftrightarrow> (\<exists>a b. x = Some a \<and> y = Some b \<and> b \<le> a)"
  by (auto simp: sql_ge_def split: option.splits)

lemma sql_in_True: "sql_in x ys = Some True \<longleftrightarrow> (\<exists>a. x = Some a \<and> a \<in> set ys)"
  by (auto simp: sql_in_def split: option.splits)

lemmas sql_True = sql_and_True sql_or_True sql_eq_True sql_ne_True sql_le_True sql_ge_True
  sql_in_True

lemma get_announce_papers_subset:
  "set (get_announce_papers updates metadata first_day last_day archives categories) \<subseteq>
     {(u, m). u \<in> set updates \<and> m \<in> set metadata \<and> join_condition u m = Some True \<and>
        filter_condition first_day last_day archives categories u m = Some True}"
proof -
  have "set (get_announce_papers updates metadata first_day last_day archives categories) \<subseteq>
     set (filter
          (\<lambda>(u, m). filter_condition first_day last_day archives categories u m = Some True)
          (filter (\<lambda>(u, m). join_condition u m = Some True)
             (List.product updates metadata)))"
    unfolding get_announce_papers_def by (rule set_take_subset)
  then show ?thesis by auto
qed

lemma sample_result:
  "get_announce_papers sample_updates sample_metadata 10 11 [''math''] [''cs.CV''] =
     [(sample_updates ! 0, sample_metadata ! 1), (sample_updates ! 3, sample_metadata ! 4)]"
  by code_simp


text \<open>
  Claim C1.  Every pair \<open>(u, m)\<close> that \<open>get_announce_papers\<close> returns satisfies all of:
  the update's category is in \<open>categories\<close> or its archive is in \<open>archives\<close>; its
  action is not \<open>abs_only\<close>; if the action is \<open>replace\<close> then the version is at most 4;
  its date lies in \<open>[first_day, last_day]\<close>, both ends included; and the metadata row
  joined to it has the update's document id and is flagged current.  Both rows come from
  the tables.
\<close>

theorem get_announce_papers_rows:
  assumes "(u, m) \<in> set (get_announce_papers updates metadata first_day last_day archives categories)"
  shows "((\<exists>c. category u = Some c \<and> c \<in> set categories) \<or>
          (\<exists>a. archive u = Some a \<and> a \<in> set archives))
       \<and> (\<exists>a. action u = Some a \<and> a \<noteq> ''abs_only'' \<and>
              (a = ''replace'' \<longrightarrow> (\<exists>v. version u = Some v \<and> v \<le> 4)))
       \<and> (\<exists>d. date u = Some d \<and> first_day \<le> d \<and> d \<le> last_day)
       \<and> is_current m = Some 1
       \<and> (\<exists>i. document_id u = Some i \<and> metadata_document_id m = Some i)
       \<and> u \<in> set updates \<and> m \<in> set metadata"
proof -
  from assms get_announce_papers_subset
  have mem: "u \<in> set updates" "m \<in> set metadata"
    and j: "join_condition u m = Some True"
    and f: "filter_condition first_day last_day archives categories u m = Some True"
    by blast+
  from j have doc: "\<exists>i. document_id u = Some i \<and> metadata_document_id m = Some i"
    by (simp add: join_condition_def sql_True)
  from f have sel: "(\<exists>c. category u = Some c \<and> c \<in> set categories) \<or>
          (\<exists>a. archive u = Some a \<and> a \<in> set archives)"
    and act: "(\<exists>a. action u = Some a \<and> a \<noteq> ''replace'') \<or>
          ((\<exists>a. action u = Some a \<and> a = ''replace'') \<and> (\<exists>v. version u = Some v \<and> v \<le> version_threshold))"
    and nabs: "\<exists>a. action u = Some a \<and> a \<noteq> ''abs_only''"
    and d1: "\<exists>d. date u = Some d \<and> first_day \<le> d"
    and d2: "\<exists>d. date u = Some d \<and> d \<le> last_day"
    and cur: "is_current m = Some 1"
    unfolding filter_condition_def sql_and_True sql_or_True
    by (simp_all add: sql_True)
  from nabs obtain a0 where a0: "action u = Some a0" "a0 \<noteq> ''abs_only''" by blast
  have gen: "a0 = r \<longrightarrow> X"
    if "(\<exists>a. action u = Some a \<and> a \<noteq> r) \<or> ((\<exists>a. action u = Some a \<and> a = r) \<and> X)"
    for r X
    using that a0(1) by auto
  from act have "a0 = ''replace'' \<longrightarrow> (\<exists>v. version u = Some v \<and> v \<le> 4)"
    unfolding version_threshold_def by (rule gen)
  with a0 have a: "\<exists>a. action u = Some a \<and> a \<noteq> ''abs_only'' \<and>
              (a = ''replace'' \<longrightarrow> (\<exists>v. version u = Some v \<and> v \<le> 4))"
    by blast
  from d1 d2 have d: "\<exists>d. date u = Some d \<and> first_day \<le> d \<and> d \<le> last_day"
    by fastforce
  from sel a d cur doc mem show ?thesis by (intro conjI)
qed

theorem get_announce_papers_rows_witness:
  "(sample_updates ! 3, sample_metadata ! 4) \<in>
      set (get_announce_papers sample_updates sample_metadata 10 11 [''math''] [''cs.CV''])
   \<and> (\<exists>a. action (sample_updates ! 3) = Some a \<and> a \<noteq> ''abs_only'' \<and>
              (a = ''replace'' \<longrightarrow> (\<exists>v. version (sample_updates ! 3) = Some v \<and> v \<le> 4)))
   \<and> (\<exists>d. date (sample_updates ! 3) = Some d \<and> 10 \<le> d \<and> d \<le> 11)
   \<and> is_current (sample_metadata ! 4) = Some 1"
proof -
  have h: "(sample_updates ! 3, sample_metadata ! 4) \<in>
      set (get_announce_papers sample_updates sample_metadata 10 11 [''math''] [''cs.CV''])"
    by (simp add: sample_result)
  from get_announce_papers_rows [OF h] h show ?thesis by (intro conjI) (elim conjE, assumption)+
qed

text \<open>
  Claim C7.  However many rows match, \<open>get_announce_papers\<close> returns at most 15 pairs.
\<close>

theorem get_announce_papers_limit:
  "length (get_announce_papers updates metadata first_day last_day archives categories) \<le> 15"
  by (simp add: get_announce_papers_def result_limit_def)

section \<open>Properties of the entry extension\<close>

lemma SubElement_with_text_sel:
  "tag (SubElement_with_text tg txt p) = tag p"
  "attrib (SubElement_with_text tg txt p) = attrib p"
  "el_text (SubElement_with_text tg txt p) = el_text p"
  by (simp_all add: SubElement_with_text_def SubElement_def update_child_def Let_def)

lemma fold_SubElement_with_text_sel:
  "tag (fold (SubElement_with_text tg) xs p) = tag p"
  "attrib (fold (SubElement_with_text tg) xs p) = attrib p"
  "el_text (fold (SubElement_with_text tg) xs p) = el_text p"
  by (induction xs arbitrary: p) (simp_all add: SubElement_with_text_sel)

lemma children_fold_SubElement_with_text:
  "children (fold (SubElement_with_text tg) xs p) =
     children p @ map (\<lambda>x. Element tg [] (Some x) []) xs"
  by (induction xs arbitrary: p) (simp_all add: children_SubElement_with_text)

lemma add_affiliations_sel:
  "tag (add_affiliations affs e) = tag e"
  "attrib (add_affiliations affs e) = attrib e"
  "el_text (add_affiliations affs e) = el_text e"
  by (simp_all add: add_affiliations_def fold_SubElement_with_text_sel)

lemma spec_affiliation_elements_not_name:
  "x \<in> set (spec_affiliation_elements d c) \<Longrightarrow> spec_affiliation_elements d x = []"
  by (auto simp: spec_affiliation_elements_def split: if_splits)

lemma concat_spec_affiliation_elements_new:
  "concat (map (spec_affiliation_elements d) (spec_affiliation_elements d c)) = []"
  by (simp add: spec_affiliation_elements_not_name)

lemma scan_author_eq:
  "scan_author d j e =
     Element (tag e) (attrib e) (el_text e)
       (children e @ concat (map (spec_affiliation_elements d) (drop j (children e))))"
proof (induction d j e rule: scan_author.induct)
  case (1 d j e)
  show ?case
  proof (cases "j < length (children e)")
    case False
    then show ?thesis by (subst scan_author.simps) simp
  next
    case True
    let ?c = "children e ! j"
    have dr: "drop j (children e) = ?c # drop (Suc j) (children e)"
      using True by (simp add: Cons_nth_drop_Suc)
    show ?thesis
    proof (cases "tag ?c = ''name''")
      case nm: True
      let ?e' = "add_affiliations (affiliations_get d (el_text ?c)) e"
      have new: "children ?e' = children e @ spec_affiliation_elements d ?c"
        using nm by (simp add: children_add_affiliations spec_affiliation_elements_def)
      have "scan_author d j e = scan_author d (Suc j) ?e'"
        using True nm by (subst scan_author.simps) (simp add: Let_def)
      also have "\<dots> = Element (tag ?e') (attrib ?e') (el_text ?e')
          (children ?e' @ concat (map (spec_affiliation_elements d) (drop (Suc j) (children ?e'))))"
        using "1.IH"(1) [OF True refl nm] .
      also have "\<dots> = Element (tag e) (attrib e) (el_text e)
          (children e @ concat (map (spec_affiliation_elements d) (drop j (children e))))"
        using True by (simp add: new dr add_affiliations_sel concat_spec_affiliation_elements_new)
      finally show ?thesis .
    next
      case nn: False
      have "scan_author d j e = scan_author d (Suc j) e"
        using True nn by (subst scan_author.simps) (simp add: Let_def)
      also have "\<dots> = Element (tag e) (attrib e) (el_text e)
          (children e @ concat (map (spec_affiliation_elements d) (drop (Suc j) (children e))))"
        using "1.IH"(2) [OF True refl nn] .
      also have "\<dots> = Element (tag e) (attrib e) (el_text e)
          (children e @ concat (map (spec_affiliation_elements d) (drop j (children e))))"
        using nn by (simp add: dr spec_affiliation_elements_def)
      finally show ?thesis .
    qed
  qed
qed

lemma scan_author_spec_author:
  "(if tag c = ''author'' then scan_author d 0 c else c) = spec_author d c"
  by (simp only: scan_author_eq spec_author_def drop_0)


lemma add_media_item_eq:
  "add_media_item fs m e =
     Element (tag e) (attrib e) (el_text e) (children e @ [spec_media_group fs m])"
  by (simp add: add_media_item_def SubElement_def update_child_def set_text_def Let_def
      spec_media_group_def)

lemma add_media_eq:
  "add_media fs self e =
     Element (tag e) (attrib e) (el_text e)
       (children e @ map (spec_media_group fs) (arxiv_media self))"
proof -
  have "fold (add_media_item fs) ms e =
     Element (tag e) (attrib e) (el_text e) (children e @ map (spec_media_group fs) ms)" for ms
    by (induction ms arbitrary: e) (simp_all add: add_media_item_eq)
  then show ?thesis by (simp add: add_media_def)
qed

lemma SubElement_with_text_eq:
  "SubElement_with_text tg txt p =
     Element (tag p) (attrib p) (el_text p) (children p @ [Element tg [] (Some txt) []])"
  by (simp add: SubElement_with_text_def SubElement_def update_child_def set_text_def Let_def)

lemma fold_SubElement_with_text_eq:
  "fold (SubElement_with_text tg) xs p =
     Element (tag p) (attrib p) (el_text p)
       (children p @ map (\<lambda>x. Element tg [] (Some x) []) xs)"
  by (induction xs arbitrary: p) (simp_all add: SubElement_with_text_eq)

text \<open>The four optional fields, one step each.\<close>

lemma comment_step:
  "(case arxiv_comment self of
      None \<Rightarrow> e
    | Some c \<Rightarrow>
        if c \<noteq> [] then SubElement_with_text ''{http://arxiv.org/schemas/atom}comment'' c e
        else e) =
   Element (tag e) (attrib e) (el_text e) (children e @ spec_comment_elements self)"
  by (simp add: spec_comment_elements_def SubElement_with_text_eq split: option.splits)

lemma primary_category_step:
  "(case arxiv_primary_category self of
      None \<Rightarrow> e
    | Some pc \<Rightarrow>
        if pc \<noteq> [] then SubElement e ''{http://arxiv.org/schemas/atom}primary_category'' pc
        else e) =
   Element (tag e) (attrib e) (el_text e) (children e @ spec_primary_category_elements self)"
  by (simp add: spec_primary_category_elements_def SubElement_def split: option.splits)

lemma journal_ref_step:
  "(case arxiv_journal_ref self of
      None \<Rightarrow> e
    | Some r \<Rightarrow>
        if r \<noteq> [] then SubElement_with_text ''{http://arxiv.org/schemas/atom}journal_ref'' r e
        else e) =
   Element (tag e) (attrib e) (el_text e) (children e @ spec_journal_ref_elements self)"
  by (simp add: spec_journal_ref_elements_def SubElement_with_text_eq split: option.splits)

lemma doi_step:
  "(case arxiv_doi self of
      None \<Rightarrow> e
    | Some doi_list \<Rightarrow>
        if doi_list \<noteq> [] then
          fold (SubElement_with_text ''{http://arxiv.org/schemas/atom}doi'') (map fst doi_list) e
        else e) =
   Element (tag e) (attrib e) (el_text e) (children e @ spec_doi_elements self)"
  by (simp add: spec_doi_elements_def fold_SubElement_with_text_eq comp_def case_prod_beta
      split: option.splits)

lemma spec_author_fields:
  "map (spec_author d) (spec_comment_elements self) = spec_comment_elements self"
  "map (spec_author d) (spec_primary_category_elements self) = spec_primary_category_elements self"
  "map (spec_author d) (spec_journal_ref_elements self) = spec_journal_ref_elements self"
  "map (spec_author d) (spec_doi_elements self) = spec_doi_elements self"
  by (simp_all add: spec_author_def spec_comment_elements_def spec_primary_category_elements_def
      spec_journal_ref_elements_def spec_doi_elements_def case_prod_beta split: option.splits)

lemma extend_atom_eq:
  "extend_atom fs self entry =
     Element (tag entry) (attrib entry) (el_text entry)
       (map (spec_author (arxiv_affiliations self)) (children entry)
          @ spec_comment_elements self
          @ spec_primary_category_elements self
          @ spec_journal_ref_elements self
          @ spec_doi_elements self
          @ map (spec_media_group fs) (arxiv_media self))"
  unfolding extend_atom_def Let_def comment_step primary_category_step journal_ref_step doi_step
    scan_author_spec_author
  by (simp add: for_each_child_def add_media_eq spec_author_fields)



lemma authors_loop_rest:
  "authors_loop base as False d = d @ concat (map (\<lambda>a. '', '' @ author_anchor base a) as)"
  by (induction as arbitrary: d) (simp_all add: Let_def)

lemma join_with_Cons:
  "join_with sep (x # xs) = x @ concat (map (\<lambda>y. sep @ y) xs)"
  by (induction xs arbitrary: x) simp_all

lemma authors_loop_join:
  "authors_loop base as True d = d @ join_with '', '' (map (author_anchor base) as)"
proof (cases as)
  case Nil
  then show ?thesis by simp
next
  case (Cons a rest)
  then show ?thesis
    by (simp add: Let_def authors_loop_rest join_with_Cons comp_def)
qed

lemma rss_description_eq:
  "rss_description base self t = spec_rss_description base (arxiv_authors self) (fstring_opt t)"
  by (simp add: rss_description_def spec_rss_description_def authors_loop_join)

lemma extend_rss_eq:
  "extend_rss fs base self entry =
     Element (tag entry) (attrib entry) (el_text entry)
       (map (\<lambda>c. if tag c = ''description''
                  then set_text
                         (Some (spec_rss_description base (arxiv_authors self)
                                  (fstring_opt (el_text c)))) c
                  else c)
            (children entry)
          @ map (spec_media_group fs) (arxiv_media self))"
  by (simp add: extend_rss_def Let_def for_each_child_def add_media_eq rss_description_eq)

text \<open>
  Claim C2, as stated, asks for the original description text between \<open></p><p>\<close> and
  \<open></p>\<close> for every entry that has a description child.  A description element without
  a text has no original text, yet \<open>extend_rss\<close> writes the word \<open>None\<close> there, which is
  how the f-string renders Python's \<open>None\<close>: on the entry below, with no author
  accumulated, the new text is \<open><p>Authors: </p><p>None</p>\<close> and not the authors
  paragraph followed by an empty paragraph.
\<close>

theorem extend_rss_description_counterexample:
  "0 < length (children sample_rss_entry_no_text)
   \<and> tag (children sample_rss_entry_no_text ! 0) = ''description''
   \<and> el_text (children sample_rss_entry_no_text ! 0) = None
   \<and> el_text (children (extend_rss sample_format_str ''arxiv.org'' ArxivEntryExtension_init
                 sample_rss_entry_no_text) ! 0) =
       Some ''<p>Authors: </p><p>None</p>''
   \<and> el_text (children (extend_rss sample_format_str ''arxiv.org'' ArxivEntryExtension_init
                 sample_rss_entry_no_text) ! 0) \<noteq>
       Some (''<p>Authors: ''
             @ join_with '', ''
                 (map (author_anchor ''arxiv.org'') (arxiv_authors ArxivEntryExtension_init))
             @ ''</p><p>'' @ [] @ ''</p>'')"
  by (simp add: sample_rss_entry_no_text_def ArxivEntryExtension_init_def extend_rss_def
      for_each_child_def set_text_def rss_description_def fstring_opt_def add_media_def Let_def)

text \<open>
  Claim C2, amended.  For every entry, every child \<open>description\<close> of it that has a text (at
  any position \<open>i\<close>) and every state of the extension, after \<open>extend_rss\<close> the text of that
  child is \<open><p>Authors: \<close>, then one anchor per accumulated author in accumulation order,
  separated by a comma and a space, then \<open></p><p>\<close>, the original text and \<open></p>\<close>.  The
  anchor of an author links to the author search of the configured base server for the
  name \<open>Last,+Initials\<close>, the spaces of the initials replaced by \<open>+\<close>, and is labelled
  with the author's full name.  Nothing is stated for a description without a text.
\<close>

theorem extend_rss_description:
  assumes "i < length (children entry)"
    and "tag (children entry ! i) = ''description''"
    and "el_text (children entry ! i) = Some original"
  shows "el_text (children (extend_rss fs base self entry) ! i) =
           Some (''<p>Authors: ''
                 @ join_with '', '' (map (author_anchor base) (arxiv_authors self))
                 @ ''</p><p>'' @ original @ ''</p>'')
       \<and> (\<forall>a. author_anchor base a =
              ''<a href='' @ dquote @ ''http://'' @ base @ ''/search/?query=''
              @ last_name a @ '',+'' @ replace_char CHR '' '' CHR ''+'' (initials a)
              @ ''&searchtype=author'' @ dquote @ ''>'' @ full_name a @ ''</a>'')"
proof -
  have "children (extend_rss fs base self entry) ! i =
      (\<lambda>c. if tag c = ''description''
            then set_text (Some (spec_rss_description base (arxiv_authors self)
                                   (fstring_opt (el_text c)))) c
            else c) (children entry ! i)"
    using assms(1) by (simp add: extend_rss_eq nth_append)
  then have "el_text (children (extend_rss fs base self entry) ! i) =
      Some (spec_rss_description base (arxiv_authors self) original)"
    using assms(2,3) by (simp add: set_text_def fstring_opt_def)
  then show ?thesis
    by (simp add: spec_rss_description_def author_anchor_def Let_def)
qed

theorem extend_rss_description_witness:
  "1 < length (children sample_rss_entry)
   \<and> tag (children sample_rss_entry ! 1) = ''description''
   \<and> el_text (children sample_rss_entry ! 1) = Some ''Abstract.''
   \<and> el_text (children (extend_rss sample_format_str ''arxiv.org'' sample_extension
                 sample_rss_entry) ! 1) =
       Some (''<p>Authors: ''
             @ ''<a href='' @ dquote @ ''http://arxiv.org/search/?query=Lee,+A+B&searchtype=author''
             @ dquote @ ''>Ann Lee</a>''
             @ '', ''
             @ ''<a href='' @ dquote @ ''http://arxiv.org/search/?query=Roe,+B&searchtype=author''
             @ dquote @ ''>Bo Roe</a>''
             @ ''</p><p>Abstract.</p>'')"
proof -
  have h1: "1 < length (children sample_rss_entry)"
    by (simp add: sample_rss_entry_def)
  have h2: "tag (children sample_rss_entry ! 1) = ''description''"
    by (simp add: sample_rss_entry_def)
  have h3: "el_text (children sample_rss_entry ! 1) = Some ''Abstract.''"
    by (simp add: sample_rss_entry_def)
  have au: "arxiv_authors sample_extension =
      [\<lparr>last_name = ''Lee'', full_name = ''Ann Lee'', initials = ''A B'',
         affiliations = [''MIT'', ''CERN'']\<rparr>,
       \<lparr>last_name = ''Roe'', full_name = ''Bo Roe'', initials = ''B'', affiliations = []\<rparr>]"
    by (simp add: sample_extension_def ArxivEntryExtension_init_def author_def media_def
        comment_def primary_category_def doi_def affiliation_def)
  from extend_rss_description
    [OF h1 h2 h3, of sample_format_str "''arxiv.org''" sample_extension]
  have "el_text (children (extend_rss sample_format_str ''arxiv.org'' sample_extension
                 sample_rss_entry) ! 1) =
       Some (''<p>Authors: ''
             @ join_with '', '' (map (author_anchor ''arxiv.org'') (arxiv_authors sample_extension))
             @ ''</p><p>'' @ ''Abstract.'' @ ''</p>'')"
    by (rule conjunct1)
  then show ?thesis
    using h1 h2 h3
    by (simp add: au author_anchor_def replace_char_def Let_def dquote_def)
qed

text \<open>
  Claim C3.  For every entry and every state, \<open>extend_atom\<close> returns the entry with, after
  its own children, in this order: one comment element when the comment is set and not
  empty, one primary-category element whose attributes are the stored value and which
  has no text, one journal-ref element, one DOI element per item of the DOI dictionary;
  every child \<open>author\<close> of the entry has received, for each of its children \<open>name\<close> whose
  text is a key of the affiliations dictionary, one affiliation element per affiliation
  listed under that key; the media groups come last.  A field that is absent or empty
  contributes no element, and the function is total.
\<close>

theorem extend_atom_appends:
  "extend_atom fs self entry =
     Element (tag entry) (attrib entry) (el_text entry)
       (map (spec_author (arxiv_affiliations self)) (children entry)
          @ spec_comment_elements self
          @ spec_primary_category_elements self
          @ spec_journal_ref_elements self
          @ spec_doi_elements self
          @ map (spec_media_group fs) (arxiv_media self))
   \<and> length (spec_comment_elements self) =
       (if arxiv_comment self = None \<or> arxiv_comment self = Some [] then 0 else 1)
   \<and> length (spec_primary_category_elements self) =
       (if arxiv_primary_category self = None \<or> arxiv_primary_category self = Some []
        then 0 else 1)
   \<and> length (spec_journal_ref_elements self) =
       (if arxiv_journal_ref self = None \<or> arxiv_journal_ref self = Some [] then 0 else 1)
   \<and> length (spec_doi_elements self) =
       (case arxiv_doi self of None \<Rightarrow> 0 | Some doi_list \<Rightarrow> length doi_list)"
proof -
  have "length (spec_comment_elements self) =
       (if arxiv_comment self = None \<or> arxiv_comment self = Some [] then 0 else 1)"
    by (simp add: spec_comment_elements_def split: option.splits)
  moreover have "length (spec_primary_category_elements self) =
       (if arxiv_primary_category self = None \<or> arxiv_primary_category self = Some []
        then 0 else 1)"
    by (simp add: spec_primary_category_elements_def split: option.splits)
  moreover have "length (spec_journal_ref_elements self) =
       (if arxiv_journal_ref self = None \<or> arxiv_journal_ref self = Some [] then 0 else 1)"
    by (simp add: spec_journal_ref_elements_def split: option.splits)
  moreover have "length (spec_doi_elements self) =
       (case arxiv_doi self of None \<Rightarrow> 0 | Some doi_list \<Rightarrow> length doi_list)"
    by (simp add: spec_doi_elements_def split: option.splits)
  ultimately show ?thesis
    using extend_atom_eq [of fs self entry] by (intro conjI)
qed

lemma sample_extension_fields:
  "arxiv_media sample_extension =
     [\<lparr>title = ''pdf'', url = ''http://arxiv.org/pdf/1'', format = PDF\<rparr>]"
  "arxiv_comment sample_extension = Some ''5 pages''"
  "arxiv_primary_category sample_extension = Some [(''term'', ''cs.AI'')]"
  "arxiv_journal_ref sample_extension = None"
  "arxiv_doi sample_extension = Some [(''doi'', ''10.1/x'')]"
  "arxiv_affiliations sample_extension ''Ann Lee'' = Some [''MIT'', ''CERN'']"
  "arxiv_affiliations sample_extension ''Bo Roe'' = None"
  by (simp_all add: sample_extension_def ArxivEntryExtension_init_def author_def media_def
      comment_def primary_category_def doi_def affiliation_def)

theorem extend_atom_appends_witness:
  "extend_atom sample_format_str sample_extension sample_atom_entry =
     Element ''entry'' [] None
       [Element ''title'' [] (Some ''T'') [],
        Element ''author'' [] None
          [Element ''name'' [] (Some ''Ann Lee'') [],
           Element ''{http://arxiv.org/schemas/atom}affiliation'' [] (Some ''MIT'') [],
           Element ''{http://arxiv.org/schemas/atom}affiliation'' [] (Some ''CERN'') []],
        Element ''author'' [] None [Element ''name'' [] (Some ''Bo Roe'') []],
        Element ''{http://arxiv.org/schemas/atom}comment'' [] (Some ''5 pages'') [],
        Element ''{http://arxiv.org/schemas/atom}primary_category'' [(''term'', ''cs.AI'')]
          None [],
        Element ''{http://arxiv.org/schemas/atom}doi'' [] (Some ''doi'') [],
        Element ''{http://search.yahoo.com/mrss}group'' [] None
          [Element ''{http://search.yahoo.com/mrss}title'' [] (Some ''pdf'') [],
           Element ''{http://search.yahoo.com/mrss}content''
             [(''url'', ''http://arxiv.org/pdf/1''), (''type'', ''application/pdf'')] None []]]"
proof -
  from extend_atom_appends [of sample_format_str sample_extension sample_atom_entry]
  have "extend_atom sample_format_str sample_extension sample_atom_entry =
     Element (tag sample_atom_entry) (attrib sample_atom_entry) (el_text sample_atom_entry)
       (map (spec_author (arxiv_affiliations sample_extension)) (children sample_atom_entry)
          @ spec_comment_elements sample_extension
          @ spec_primary_category_elements sample_extension
          @ spec_journal_ref_elements sample_extension
          @ spec_doi_elements sample_extension
          @ map (spec_media_group sample_format_str) (arxiv_media sample_extension))"
    by (rule conjunct1)
  then show ?thesis
    by (simp add: sample_extension_fields sample_atom_entry_def spec_author_def
        spec_affiliation_elements_def affiliations_get_def spec_comment_elements_def
        spec_primary_category_elements_def spec_journal_ref_elements_def spec_doi_elements_def
        spec_media_group_def media_type_def sample_format_str_def)
qed

text \<open>
  Claim C6.  \<open>__add_media\<close> appends one group per accumulated medium, in accumulation
  order, each a title element with the medium's title as text and a content element with
  the attributes \<open>url\<close> and \<open>type\<close>; the children \<open>extend_rss\<close> adds to the entry are
  exactly these groups, and they are the groups that end the children \<open>extend_atom\<close> adds.
\<close>

theorem extend_rss_same_media_groups:
  "add_media fs self entry =
     Element (tag entry) (attrib entry) (el_text entry)
       (children entry @ map (spec_media_group fs) (arxiv_media self))
   \<and> drop (length (children entry)) (children (extend_rss fs base self entry)) =
       map (spec_media_group fs) (arxiv_media self)
   \<and> drop (length (children entry)
            + length (spec_comment_elements self @ spec_primary_category_elements self
                      @ spec_journal_ref_elements self @ spec_doi_elements self))
         (children (extend_atom fs self entry)) =
       map (spec_media_group fs) (arxiv_media self)
   \<and> length (children (extend_rss fs base self entry)) =
       length (children entry) + length (arxiv_media self)"
  by (simp add: add_media_eq extend_rss_eq extend_atom_eq)

theorem extend_rss_same_media_groups_witness:
  "drop 2 (children (extend_rss sample_format_str ''arxiv.org'' sample_extension
                       sample_rss_entry)) =
     [Element ''{http://search.yahoo.com/mrss}group'' [] None
        [Element ''{http://search.yahoo.com/mrss}title'' [] (Some ''pdf'') [],
         Element ''{http://search.yahoo.com/mrss}content''
           [(''url'', ''http://arxiv.org/pdf/1''), (''type'', ''application/pdf'')] None []]]
   \<and> drop 6 (children (extend_atom sample_format_str sample_extension sample_atom_entry)) =
     [Element ''{http://search.yahoo.com/mrss}group'' [] None
        [Element ''{http://search.yahoo.com/mrss}title'' [] (Some ''pdf'') [],
         Element ''{http://search.yahoo.com/mrss}content''
           [(''url'', ''http://arxiv.org/pdf/1''), (''type'', ''application/pdf'')] None []]]"
proof -
  have n: "length (children sample_rss_entry) = 2" "length (children sample_atom_entry) = 3"
    "length (spec_comment_elements sample_extension
             @ spec_primary_category_elements sample_extension
             @ spec_journal_ref_elements sample_extension
             @ spec_doi_elements sample_extension) = 3"
    by (simp_all add: sample_rss_entry_def sample_atom_entry_def sample_extension_fields
        spec_comment_elements_def spec_primary_category_elements_def
        spec_journal_ref_elements_def spec_doi_elements_def)
  have g: "map (spec_media_group sample_format_str) (arxiv_media sample_extension) =
     [Element ''{http://search.yahoo.com/mrss}group'' [] None
        [Element ''{http://search.yahoo.com/mrss}title'' [] (Some ''pdf'') [],
         Element ''{http://search.yahoo.com/mrss}content''
           [(''url'', ''http://arxiv.org/pdf/1''), (''type'', ''application/pdf'')] None []]]"
    by (simp add: sample_extension_fields spec_media_group_def media_type_def
        sample_format_str_def)
  from extend_rss_same_media_groups
    [of sample_format_str sample_extension sample_rss_entry "''arxiv.org''"]
  have r: "drop 2 (children (extend_rss sample_format_str ''arxiv.org'' sample_extension
                       sample_rss_entry)) =
       map (spec_media_group sample_format_str) (arxiv_media sample_extension)"
    unfolding n by (elim conjE)
  from extend_rss_same_media_groups
    [of sample_format_str sample_extension sample_atom_entry "''arxiv.org''"]
  have a: "drop (3 + 3) (children (extend_atom sample_format_str sample_extension
                       sample_atom_entry)) =
       map (spec_media_group sample_format_str) (arxiv_media sample_extension)"
    unfolding n by (elim conjE)
  from r a show ?thesis by (simp add: g)
qed

text \<open>
  Claim C8.  \<open>Media.type\<close> is \<open>application/\<close> followed by the format for PDF and PS and
  \<open>text/html\<close> for every other format; it depends on the format field alone.
\<close>

theorem media_type_by_format:
  "media_type format_str m =
     (case format m of
        PDF \<Rightarrow> ''application/'' @ format_str PDF
      | PS \<Rightarrow> ''application/'' @ format_str PS
      | HTML \<Rightarrow> ''text/html''
      | OtherFormat x \<Rightarrow> ''text/html'')
   \<and> media_type format_str (m\<lparr>title := t, url := u\<rparr>) = media_type format_str m"
  by (cases "format m") (simp_all add: media_type_def)

text \<open>
  Claim C9.  The feed-level \<open>extend_atom\<close> and \<open>extend_rss\<close> of \<open>ArxivExtension\<close> return the
  tree they are given, unchanged; the extension contributes the six namespace
  declarations arxiv, content, taxo, syn, admin and media.
\<close>

theorem ArxivExtension_feed_unchanged:
  "ArxivExtension_extend_atom feed = feed
   \<and> ArxivExtension_extend_rss feed = feed
   \<and> map fst ArxivExtension_extend_ns =
       [''arxiv'', ''content'', ''taxo'', ''syn'', ''admin'', ''media'']"
  by (simp add: ArxivExtension_extend_atom_def ArxivExtension_extend_rss_def
      ArxivExtension_extend_ns_def)

lemma fold_author:
  "fold author as s = s\<lparr>arxiv_authors := arxiv_authors s @ as\<rparr>"
  by (induction as arbitrary: s) (simp_all add: author_def)

lemma fold_media:
  "fold media ms s = s\<lparr>arxiv_media := arxiv_media s @ ms\<rparr>"
  by (induction ms arbitrary: s) (simp_all add: media_def)

text \<open>
  Claim C10.  The setters \<open>comment\<close>, \<open>primary_category\<close>, \<open>journal_ref\<close> and \<open>doi\<close> keep
  the last value written, and \<open>affiliation\<close> keeps the last list written for a name;
  \<open>author\<close> and \<open>media\<close> append, so that a run of calls accumulates its arguments in call
  order; each setter changes its own field only, to a value that no other field
  determines.
\<close>

theorem setters_last_write_or_append:
  "comment t2 (comment t1 s) = comment t2 s
   \<and> primary_category p2 (primary_category p1 s) = primary_category p2 s
   \<and> journal_ref j2 (journal_ref j1 s) = journal_ref j2 s
   \<and> doi d2 (doi d1 s) = doi d2 s
   \<and> affiliation n a2 (affiliation n a1 s) = affiliation n a2 s
   \<and> fold author as s = s\<lparr>arxiv_authors := arxiv_authors s @ as\<rparr>
   \<and> fold media ms s = s\<lparr>arxiv_media := arxiv_media s @ ms\<rparr>
   \<and> comment t1 s = s\<lparr>arxiv_comment := Some t1\<rparr>
   \<and> primary_category p1 s = s\<lparr>arxiv_primary_category := Some p1\<rparr>
   \<and> journal_ref j1 s = s\<lparr>arxiv_journal_ref := Some j1\<rparr>
   \<and> doi d1 s = s\<lparr>arxiv_doi := Some d1\<rparr>
   \<and> affiliation n a1 s = s\<lparr>arxiv_affiliations := (arxiv_affiliations s)(n \<mapsto> a1)\<rparr>
   \<and> author a s = s\<lparr>arxiv_authors := arxiv_authors s @ [a]\<rparr>
   \<and> media m s = s\<lparr>arxiv_media := arxiv_media s @ [m]\<rparr>"
  by (simp add: fold_author fold_media)
     (simp add: comment_def primary_category_def journal_ref_def doi_def affiliation_def
        author_def media_def)

section \<open>Properties of specifier validation\<close>

lemma split_on_not_Nil: "split_on sep s \<noteq> []"
  by (induction s) (auto split: list.splits)

lemma length_split_on: "length (split_on sep s) = Suc (length (filter (\<lambda>c. c = sep) s))"
  by (induction s) (auto split: list.splits simp: split_on_not_Nil)

lemma split_on_one: "split_on sep s = [a] \<Longrightarrow> s = a \<and> sep \<notin> set a"
proof (induction s arbitrary: a)
  case Nil
  then show ?case by simp
next
  case (Cons c cs)
  show ?case
  proof (cases "c = sep")
    case True
    with Cons.prems show ?thesis by (simp add: split_on_not_Nil)
  next
    case False
    with Cons.prems obtain t where t: "split_on sep cs = [t]" "a = c # t"
      by (auto split: list.splits simp: split_on_not_Nil)
    from Cons.IH [OF t(1)] t(2) False show ?thesis by simp
  qed
qed

lemma split_on_two:
  "split_on sep s = [a, b] \<Longrightarrow> s = a @ sep # b \<and> sep \<notin> set a \<and> sep \<notin> set b"
proof (induction s arbitrary: a)
  case Nil
  then show ?case by simp
next
  case (Cons c cs)
  show ?case
  proof (cases "c = sep")
    case True
    with Cons.prems have "a = []" "split_on sep cs = [b]" by simp_all
    with split_on_one [of sep cs b] True show ?thesis by simp
  next
    case False
    with Cons.prems obtain t where t: "split_on sep cs = [t, b]" "a = c # t"
      by (auto split: list.splits simp: split_on_not_Nil)
    from Cons.IH [OF t(1)] t(2) False show ?thesis by simp
  qed
qed

lemma last_split_on_trailing: "last (split_on sep (s @ [sep])) = []"
proof (induction s)
  case Nil
  then show ?case by simp
next
  case (Cons c cs)
  have len: "2 \<le> length (split_on sep (cs @ [sep]))"
    by (simp add: length_split_on)
  show ?case
  proof (cases "c = sep")
    case True
    then show ?thesis using Cons.IH by (simp add: split_on_not_Nil)
  next
    case False
    obtain t ts where tts: "split_on sep (cs @ [sep]) = t # ts"
      using split_on_not_Nil [of sep "cs @ [sep]"] by (cases "split_on sep (cs @ [sep])") auto
    with len have "ts \<noteq> []" by auto
    with tts Cons.IH False show ?thesis by simp
  qed
qed

lemma lower_append: "lower (a @ b) = lower a @ lower b"
  by (simp add: lower_def)

lemma lower_dot: "lower ''.'' = ''.''"
  by (simp add: lower_def lower_char_def)

lemma find_archive_Some:
  "find_archive tax a = Some (name, subjects) \<Longrightarrow>
     (name, subjects) \<in> set tax \<and> lower name = lower a"
  unfolding find_archive_def find_Some_iff by (auto simp: in_set_conv_nth)

lemma find_subject_Some:
  "find_subject subjects s = Some c \<Longrightarrow> c \<in> set subjects \<and> lower c = lower s"
  unfolding find_subject_def find_Some_iff by (auto simp: in_set_conv_nth)

lemma validate_token_archive:
  assumes "validate_token tax tok = Inr (ArchiveToken a)"
  shows "CHR ''.'' \<notin> set tok \<and> lower a = lower tok \<and> a \<in> set (archive_names tax)"
proof -
  from assms obtain p where p: "split_on CHR ''.'' tok = [p]"
    by (auto simp: validate_token_def Let_def split: if_splits list.splits option.splits)
  with assms obtain subjects where "find_archive tax p = Some (a, subjects)"
    by (auto simp: validate_token_def Let_def split: option.splits)
  from find_archive_Some [OF this] split_on_one [OF p] show ?thesis
    by (force simp: archive_names_def)
qed

lemma validate_token_category:
  assumes "validate_token tax tok = Inr (CategoryToken c)"
  shows "CHR ''.'' \<in> set tok \<and> lower c = lower tok \<and> c \<in> set (category_names tax)"
proof -
  from assms obtain p q where pq: "split_on CHR ''.'' tok = [p, q]"
    by (auto simp: validate_token_def Let_def split: if_splits list.splits option.splits)
  with assms obtain name subjects sc where
    fa: "find_archive tax p = Some (name, subjects)" and
    fs: "find_subject subjects q = Some sc" and
    c: "c = name @ ''.'' @ sc"
    by (auto simp: validate_token_def Let_def split: if_splits option.splits)
  from split_on_two [OF pq] have tok: "tok = p @ ''.'' @ q" by simp
  from find_archive_Some [OF fa] have n: "(name, subjects) \<in> set tax" "lower name = lower p"
    by simp_all
  from find_subject_Some [OF fs] have sc: "sc \<in> set subjects" "lower sc = lower q"
    by simp_all
  have "lower c = lower tok"
    unfolding c tok lower_append lower_dot n(2) sc(2) ..
  moreover have "c \<in> set (category_names tax)"
    unfolding category_names_def c using n(1) sc(1) by force
  moreover have "CHR ''.'' \<in> set tok" unfolding tok by simp
  ultimately show ?thesis by simp
qed

lemma validate_tokens_partition:
  assumes "validate_tokens tax toks archives categories = Inr (archs, cats)"
  shows "\<exists>new_archs new_cats.
           archs = archives @ new_archs \<and> cats = categories @ new_cats \<and>
           map lower new_archs = map lower (filter (\<lambda>t. CHR ''.'' \<notin> set t) toks) \<and>
           map lower new_cats = map lower (filter (\<lambda>t. CHR ''.'' \<in> set t) toks) \<and>
           set new_archs \<subseteq> set (archive_names tax) \<and>
           set new_cats \<subseteq> set (category_names tax)"
  using assms
proof (induction toks arbitrary: archives categories)
  case Nil
  then show ?case by simp
next
  case (Cons tok rest)
  from Cons.prems obtain r where r: "validate_token tax tok = Inr r"
    by (cases "validate_token tax tok") simp_all
  show ?case
  proof (cases r)
    case (ArchiveToken a)
    with r Cons.prems have "validate_tokens tax rest (archives @ [a]) categories = Inr (archs, cats)"
      by simp
    from Cons.IH [OF this] obtain na nc where
      ih: "archs = (archives @ [a]) @ na" "cats = categories @ nc"
        "map lower na = map lower (filter (\<lambda>t. CHR ''.'' \<notin> set t) rest)"
        "map lower nc = map lower (filter (\<lambda>t. CHR ''.'' \<in> set t) rest)"
        "set na \<subseteq> set (archive_names tax)" "set nc \<subseteq> set (category_names tax)"
      by blast
    from validate_token_archive [of tax tok a] r ArchiveToken
    have t: "CHR ''.'' \<notin> set tok" "lower a = lower tok" "a \<in> set (archive_names tax)"
      by simp_all
    show ?thesis
      by (rule exI [of _ "a # na"], rule exI [of _ nc]) (use ih t in simp)
  next
    case (CategoryToken c)
    with r Cons.prems have "validate_tokens tax rest archives (categories @ [c]) = Inr (archs, cats)"
      by simp
    from Cons.IH [OF this] obtain na nc where
      ih: "archs = archives @ na" "cats = (categories @ [c]) @ nc"
        "map lower na = map lower (filter (\<lambda>t. CHR ''.'' \<notin> set t) rest)"
        "map lower nc = map lower (filter (\<lambda>t. CHR ''.'' \<in> set t) rest)"
        "set na \<subseteq> set (archive_names tax)" "set nc \<subseteq> set (category_names tax)"
      by blast
    from validate_token_category [of tax tok c] r CategoryToken
    have t: "CHR ''.'' \<in> set tok" "lower c = lower tok" "c \<in> set (category_names tax)"
      by simp_all
    show ?thesis
      by (rule exI [of _ na], rule exI [of _ "c # nc"]) (use ih t in simp)
  qed
qed

lemma validate_examples:
  "validate sample_taxonomy ''cs.CV+math+hep-lat+cs.CG'' =
     Inr ([''math'', ''hep-lat''], [''cs.CV'', ''cs.CG''])"
  "validate sample_taxonomy ''cs.ai'' = Inr ([], [''cs.AI''])"
  "validate sample_taxonomy ''CS.AI'' = Inr ([], [''cs.AI''])"
  by code_simp+

text \<open>
  Claim C4.  When \<open>validate\<close> succeeds, \<open>archives\<close> is the input tokens without a dot and
  \<open>categories\<close> the input tokens with a dot, each in input order and neither deduplicated
  nor sorted, equal to the input up to letter case; every archive returned is an archive
  name of the taxonomy and every category returned is a dotted \<open>archive.subject\<close> name of
  the taxonomy, in the taxonomy's casing.  On the taxonomy of the examples,
  \<open>cs.CV+math+hep-lat+cs.CG\<close> gives \<open>([math, hep-lat], [cs.CV, cs.CG])\<close>, and \<open>cs.ai\<close> and
  \<open>CS.AI\<close> both give \<open>([], [cs.AI])\<close>.
\<close>

theorem validate_partitions_tokens:
  "(validate tax spec = Inr (archs, cats) \<longrightarrow>
      map lower archs = map lower (filter (\<lambda>t. CHR ''.'' \<notin> set t) (split_on CHR ''+'' spec))
    \<and> map lower cats = map lower (filter (\<lambda>t. CHR ''.'' \<in> set t) (split_on CHR ''+'' spec))
    \<and> set archs \<subseteq> set (archive_names tax)
    \<and> set cats \<subseteq> set (category_names tax))
   \<and> validate sample_taxonomy ''cs.CV+math+hep-lat+cs.CG'' =
       Inr ([''math'', ''hep-lat''], [''cs.CV'', ''cs.CG''])
   \<and> validate sample_taxonomy ''cs.ai'' = Inr ([], [''cs.AI''])
   \<and> validate sample_taxonomy ''CS.AI'' = Inr ([], [''cs.AI''])"
proof -
  have "map lower archs = map lower (filter (\<lambda>t. CHR ''.'' \<notin> set t) (split_on CHR ''+'' spec))
    \<and> map lower cats = map lower (filter (\<lambda>t. CHR ''.'' \<in> set t) (split_on CHR ''+'' spec))
    \<and> set archs \<subseteq> set (archive_names tax)
    \<and> set cats \<subseteq> set (category_names tax)"
    if v: "validate tax spec = Inr (archs, cats)"
  proof -
    from v have "validate_tokens tax (split_on CHR ''+'' spec) [] [] = Inr (archs, cats)"
      by (simp add: validate_def Let_def split: if_splits)
    from validate_tokens_partition [OF this] show ?thesis by auto
  qed
  with validate_examples show ?thesis by (intro conjI impI) simp_all
qed

theorem validate_partitions_tokens_witness:
  "validate sample_taxonomy ''cs.CV+math+hep-lat+cs.CG'' =
       Inr ([''math'', ''hep-lat''], [''cs.CV'', ''cs.CG''])
   \<and> map lower [''math'', ''hep-lat''] =
       map lower (filter (\<lambda>t. CHR ''.'' \<notin> set t) (split_on CHR ''+'' ''cs.CV+math+hep-lat+cs.CG''))
   \<and> map lower [''cs.CV'', ''cs.CG''] =
       map lower (filter (\<lambda>t. CHR ''.'' \<in> set t) (split_on CHR ''+'' ''cs.CV+math+hep-lat+cs.CG''))
   \<and> split_on CHR ''+'' ''cs.CV+math+hep-lat+cs.CG'' = [''cs.CV'', ''math'', ''hep-lat'', ''cs.CG'']"
proof -
  have sp: "split_on CHR ''+'' ''cs.CV+math+hep-lat+cs.CG'' = [''cs.CV'', ''math'', ''hep-lat'', ''cs.CG'']"
    by code_simp
  from validate_partitions_tokens
    [of sample_taxonomy "''cs.CV+math+hep-lat+cs.CG''" "[''math'', ''hep-lat'']"
      "[''cs.CV'', ''cs.CG'']"]
  show ?thesis using sp by (elim conjE) (intro conjI, simp_all)
qed

text \<open>
  Claim C5.  A specifier that is empty or consists of whitespace only, and a specifier
  that ends with \<open>+\<close> (so that its last token is empty), are rejected with the message
  \<open>Invalid archive specification\<close>, whatever the taxonomy: \<open>validate\<close> returns the error
  and no pair of archives and categories.  The two inputs of the test, three spaces and
  \<open>cs.ai+\<close>, are instances.
\<close>

theorem validate_invalid_specification:
  "(list_all is_space spec \<longrightarrow> validate tax spec = Inl invalid_archive_specification)
   \<and> validate tax (spec @ ''+'') = Inl invalid_archive_specification
   \<and> validate tax ''   '' = Inl invalid_archive_specification
   \<and> validate tax ''cs.ai+'' = Inl invalid_archive_specification
   \<and> message invalid_archive_specification = ''Invalid archive specification''"
proof -
  have tr: "validate tax (s @ ''+'') = Inl invalid_archive_specification" for s
    using last_split_on_trailing [of "CHR ''+''" s] by (simp add: validate_def Let_def)
  have ws: "validate tax s = Inl invalid_archive_specification" if "list_all is_space s" for s
    using that by (simp add: validate_def Let_def)
  have "list_all is_space ''   ''" by (simp add: is_space_def)
  from ws [OF this] tr [of spec] tr [of "''cs.ai''"] ws [of spec]
  show ?thesis by (simp add: invalid_archive_specification_def)
qed

theorem validate_invalid_specification_witness:
  "list_all is_space [CHR 0x20, CHR 0x09]
   \<and> validate sample_taxonomy [CHR 0x20, CHR 0x09] = Inl (FeedIndexerError ''Invalid archive specification'')
   \<and> validate sample_taxonomy ''math+'' = Inl (FeedIndexerError ''Invalid archive specification'')"
proof -
  have h: "list_all is_space [CHR 0x20, CHR 0x09]" by (simp add: is_space_def)
  from validate_invalid_specification [of "[CHR 0x20, CHR 0x09]" sample_taxonomy] h
  have a: "validate sample_taxonomy [CHR 0x20, CHR 0x09] = Inl invalid_archive_specification"
    by blast
  from validate_invalid_specification [of "''math''" sample_taxonomy]
  have b: "validate sample_taxonomy (''math'' @ ''+'') = Inl invalid_archive_specification"
    by blast
  from a b h show ?thesis by (simp add: invalid_archive_specification_def)
qed

end
